theory Spec2Isabelle
  imports Complex_Main "HOL-Library.Word"
begin

section \<open>The box game of asaphus_coding_challenge.cpp\<close>

text \<open>
  The embedding follows the source class by class. Conventions:
  \<^item> names are the source's; the data members \<open>weight_\<close>, \<open>absorbed_weights_\<close> and
    \<open>score_\<close> lose their trailing underscore, and the comparator \<open>comp\<close> and the local
    \<open>sum\<close> are \<open>cmp\<close> and \<open>sum0\<close>;
  \<^item> a C++ \<open>double\<close> is a \<^typ>\<open>real\<close>: arithmetic is exact, so rounding, infinities and
    NaN are outside the model. Every statement below about a \<open>double\<close> is a statement
    about the exact value the source's expression denotes;
  \<^item> a \<open>uint32_t\<close> token is a \<^typ>\<open>32 word\<close>, converted to \<open>double\<close> by \<open>real (unat w)\<close>
    (the conversion is exact in C++ as well);
  \<^item> a \<open>std::vector\<close> is a list, an iterator into it is an index, and the end iterator
    is the index \<open>length xs\<close>;
  \<^item> the boxes are held through \<open>std::unique_ptr\<close>, so no two entries of the vector
    alias and the vector of boxes is a list of box values;
  \<^item> mutation is explicit state passing; dereferencing the end iterator (undefined
    behaviour in C++) is the result \<open>None\<close>.
\<close>

subsection \<open>std::min_element and std::max_element\<close>

text \<open>
  The library loop: \<open>result = first; while (++first != last) if (cmp(*first, *result))
  result = first;\<close>. The arguments of the loop are the part of the range not yet
  visited, the index and the value of \<open>result\<close>, and the index of \<open>first\<close>.
\<close>

fun min_element_loop :: "('a \<Rightarrow> 'a \<Rightarrow> bool) \<Rightarrow> 'a list \<Rightarrow> nat \<Rightarrow> 'a \<Rightarrow> nat \<Rightarrow> nat" where
  "min_element_loop cmp [] ri r i = ri"
| "min_element_loop cmp (x # xs) ri r i =
     (if cmp x r then min_element_loop cmp xs i x (Suc i)
      else min_element_loop cmp xs ri r (Suc i))"

definition min_element :: "('a \<Rightarrow> 'a \<Rightarrow> bool) \<Rightarrow> 'a list \<Rightarrow> nat" where
  "min_element cmp xs = (case xs of [] \<Rightarrow> 0 | x # rest \<Rightarrow> min_element_loop cmp rest 0 x 1)"

text \<open>\<open>std::max_element\<close> tests \<open>cmp(*result, *first)\<close> instead.\<close>

fun max_element_loop :: "('a \<Rightarrow> 'a \<Rightarrow> bool) \<Rightarrow> 'a list \<Rightarrow> nat \<Rightarrow> 'a \<Rightarrow> nat \<Rightarrow> nat" where
  "max_element_loop cmp [] ri r i = ri"
| "max_element_loop cmp (x # xs) ri r i =
     (if cmp r x then max_element_loop cmp xs i x (Suc i)
      else max_element_loop cmp xs ri r (Suc i))"

definition max_element :: "('a \<Rightarrow> 'a \<Rightarrow> bool) \<Rightarrow> 'a list \<Rightarrow> nat" where
  "max_element cmp xs = (case xs of [] \<Rightarrow> 0 | x # rest \<Rightarrow> max_element_loop cmp rest 0 x 1)"

subsection \<open>Box, GreenBox, BlueBox\<close>

text \<open>
  The two subclasses carry the same fields (\<open>weight_\<close> of the base class and their own
  \<open>absorbed_weights_\<close>); the dynamic type is the field \<open>kind\<close>.
\<close>

datatype box_kind = Green | Blue

record box =
  kind :: box_kind
  weight :: real
  absorbed_weights :: "real list"

definition makeGreenBox :: "real \<Rightarrow> box" where
  "makeGreenBox initial_weight =
     \<lparr>kind = Green, weight = initial_weight, absorbed_weights = []\<rparr>"

definition makeBlueBox :: "real \<Rightarrow> box" where
  "makeBlueBox initial_weight =
     \<lparr>kind = Blue, weight = initial_weight, absorbed_weights = []\<rparr>"

text \<open>\<open>Box::operator<\<close>.\<close>

definition box_less :: "box \<Rightarrow> box \<Rightarrow> bool" where
  "box_less a rhs = (weight a < weight rhs)"

text \<open>\<open>GreenBox::mean\<close> is \<open>std::accumulate\<close> from \<open>0.0\<close>, a left fold.\<close>

definition mean :: "real list \<Rightarrow> real" where
  "mean vec = foldl (\<lambda>acc val. acc + val) 0 vec / real (length vec)"

text \<open>\<open>GreenBox::meanList\<close> is the same sum as a range-for loop.\<close>

fun meanList_loop :: "real list \<Rightarrow> real \<Rightarrow> real" where
  "meanList_loop [] sum0 = sum0"
| "meanList_loop (val # vec) sum0 = meanList_loop vec (sum0 + val)"

definition meanList :: "real list \<Rightarrow> real" where
  "meanList vec = meanList_loop vec 0 / real (length vec)"

text \<open>
  \<open>GreenBox::calculateScore\<close>. The vector \<open>last_three\<close> is built from the reverse
  iterators \<open>rbegin()\<close> to \<open>rbegin() + 3\<close>, so it holds the last three weights, newest
  first. \<open>std::pow(x, 2)\<close> is the square.
\<close>

definition GreenBox_calculateScore :: "box \<Rightarrow> real" where
  "GreenBox_calculateScore b =
     (if absorbed_weights b = [] then 0
      else if length (absorbed_weights b) < 3 then (meanList (absorbed_weights b))\<^sup>2
      else let last_three = take 3 (rev (absorbed_weights b)) in (mean last_three)\<^sup>2)"

definition cantorFunction :: "real \<Rightarrow> real \<Rightarrow> real" where
  "cantorFunction k1 k2 = 0.5 * (k1 + k2) * (k1 + k2 + 1) + k2"

definition BlueBox_calculateScore :: "box \<Rightarrow> real" where
  "BlueBox_calculateScore b =
     (if absorbed_weights b = [] then 0
      else let smallest = absorbed_weights b ! min_element (<) (absorbed_weights b);
               largest = absorbed_weights b ! max_element (<) (absorbed_weights b)
           in cantorFunction smallest largest)"

text \<open>The virtual call \<open>calculateScore()\<close>.\<close>

definition calculateScore :: "box \<Rightarrow> real" where
  "calculateScore b =
     (case kind b of Green \<Rightarrow> GreenBox_calculateScore b | Blue \<Rightarrow> BlueBox_calculateScore b)"

text \<open>
  \<open>absorb\<close> returns the score and the box as the call leaves it. The two overrides
  have the same text in the source.
\<close>

definition GreenBox_absorb :: "real \<Rightarrow> box \<Rightarrow> real \<times> box" where
  "GreenBox_absorb w b =
     (let b1 = b\<lparr>absorbed_weights := absorbed_weights b @ [w]\<rparr>;
          b2 = b1\<lparr>weight := weight b1 + w\<rparr>
      in (GreenBox_calculateScore b2, b2))"

definition BlueBox_absorb :: "real \<Rightarrow> box \<Rightarrow> real \<times> box" where
  "BlueBox_absorb w b =
     (let b1 = b\<lparr>absorbed_weights := absorbed_weights b @ [w]\<rparr>;
          b2 = b1\<lparr>weight := weight b1 + w\<rparr>
      in (BlueBox_calculateScore b2, b2))"

definition absorb :: "real \<Rightarrow> box \<Rightarrow> real \<times> box" where
  "absorb w b = (case kind b of Green \<Rightarrow> GreenBox_absorb w b | Blue \<Rightarrow> BlueBox_absorb w b)"

subsection \<open>Player\<close>

record player =
  score :: real

definition new_player :: player where
  "new_player = \<lparr>score = 0\<rparr>"

definition getScore :: "player \<Rightarrow> real" where
  "getScore p = score p"

text \<open>
  \<open>Player::takeTurn\<close>. On an empty vector \<open>std::min_element\<close> returns the end iterator
  and the source dereferences it: \<open>None\<close>.
\<close>

definition takeTurn :: "32 word \<Rightarrow> box list \<Rightarrow> player \<Rightarrow> (player \<times> box list) option" where
  "takeTurn input_weight boxes p =
     (let smallest_box = min_element box_less boxes in
      if smallest_box < length boxes
      then (case absorb (real (unat input_weight)) (boxes ! smallest_box) of
              (s, b') \<Rightarrow> Some (p\<lparr>score := score p + s\<rparr>, boxes[smallest_box := b']))
      else None)"

subsection \<open>play\<close>

record game =
  boxes :: "box list"
  player_A :: player
  player_B :: player

definition new_game :: game where
  "new_game =
     \<lparr>boxes = [makeGreenBox 0.0, makeGreenBox 0.1, makeBlueBox 0.2, makeBlueBox 0.3],
      player_A = new_player, player_B = new_player\<rparr>"

text \<open>
  The calls \<open>player_A.takeTurn(weight, boxes)\<close> and \<open>player_B.takeTurn(weight, boxes)\<close>
  on the local variables of \<open>play\<close>.
\<close>

definition player_A_takeTurn :: "32 word \<Rightarrow> game \<Rightarrow> game option" where
  "player_A_takeTurn w g =
     (case takeTurn w (boxes g) (player_A g) of
        None \<Rightarrow> None
      | Some (p, bs) \<Rightarrow> Some (g\<lparr>boxes := bs, player_A := p\<rparr>))"

definition player_B_takeTurn :: "32 word \<Rightarrow> game \<Rightarrow> game option" where
  "player_B_takeTurn w g =
     (case takeTurn w (boxes g) (player_B g) of
        None \<Rightarrow> None
      | Some (p, bs) \<Rightarrow> Some (g\<lparr>boxes := bs, player_B := p\<rparr>))"

text \<open>The body of the loop of \<open>play\<close> at counter \<open>i\<close>, without the increment.\<close>

definition play_turn :: "nat \<Rightarrow> 32 word \<Rightarrow> game \<Rightarrow> game option" where
  "play_turn i w g =
     (if i mod 2 = 0 then player_A_takeTurn w g else player_B_takeTurn w g)"

text \<open>
  The loop over \<open>input_weights\<close>. The counter \<open>i\<close> is a \<open>size_t\<close>; it counts the
  elements of a vector, so it cannot wrap, and it is a \<^typ>\<open>nat\<close> here.
\<close>

fun play_loop :: "32 word list \<Rightarrow> nat \<Rightarrow> game \<Rightarrow> game option" where
  "play_loop [] i g = Some g"
| "play_loop (w # ws) i g =
     (case play_turn i w g of None \<Rightarrow> None | Some g' \<Rightarrow> play_loop ws (Suc i) g')"

text \<open>\<open>play\<close>; the line written to \<open>std::cout\<close> is not modelled.\<close>

definition play :: "32 word list \<Rightarrow> (real \<times> real) option" where
  "play input_weights =
     (case play_loop input_weights 0 new_game of
        None \<Rightarrow> None
      | Some g \<Rightarrow> Some (getScore (player_A g), getScore (player_B g)))"

section \<open>Specification vocabulary\<close>

text \<open>
  The definitions of this section are not taken from the source: they are the words in
  which the properties are stated.
\<close>

text \<open>
  \<open>first_min f xs k\<close>: position \<open>k\<close> holds a least value of \<open>f\<close> over \<open>xs\<close>, and every
  earlier position holds a strictly greater one. \<open>first_max\<close> is its mirror image.
\<close>

definition first_min :: "('a \<Rightarrow> real) \<Rightarrow> 'a list \<Rightarrow> nat \<Rightarrow> bool" where
  "first_min f xs k =
     (k < length xs \<and> (\<forall>j < length xs. f (xs ! k) \<le> f (xs ! j)) \<and> (\<forall>j < k. f (xs ! k) < f (xs ! j)))"

definition first_max :: "('a \<Rightarrow> real) \<Rightarrow> 'a list \<Rightarrow> nat \<Rightarrow> bool" where
  "first_max f xs k =
     (k < length xs \<and> (\<forall>j < length xs. f (xs ! j) \<le> f (xs ! k)) \<and> (\<forall>j < k. f (xs ! j) < f (xs ! k)))"

text \<open>A sequence of \<open>absorb\<close> calls on one box, the scores dropped.\<close>

definition absorb_all :: "real list \<Rightarrow> box \<Rightarrow> box" where
  "absorb_all ws b = foldl (\<lambda>b w. snd (absorb w b)) b ws"

text \<open>
  The turn order in the words of the specification: the token at index \<open>i\<close> is played
  by Player A when \<open>i\<close> is even and by Player B when \<open>i\<close> is odd. \<open>run_turns\<close> plays a
  list of tokens, each labelled with the player who is to take the turn.
\<close>

datatype player_id = Player_A | Player_B

fun player_takeTurn :: "player_id \<Rightarrow> 32 word \<Rightarrow> game \<Rightarrow> game option" where
  "player_takeTurn Player_A w g = player_A_takeTurn w g"
| "player_takeTurn Player_B w g = player_B_takeTurn w g"

fun run_turns :: "(player_id \<times> 32 word) list \<Rightarrow> game \<Rightarrow> game option" where
  "run_turns [] g = Some g"
| "run_turns ((pl, w) # ts) g =
     (case player_takeTurn pl w g of None \<Rightarrow> None | Some g' \<Rightarrow> run_turns ts g')"

definition turn_order :: "nat \<Rightarrow> player_id list" where
  "turn_order L = map (\<lambda>i. if even i then Player_A else Player_B) [0..<L]"

text \<open>No box has absorbed a negative weight.\<close>

definition nonneg_histories :: "box list \<Rightarrow> bool" where
  "nonneg_histories bs = (\<forall>b \<in> set bs. \<forall>x \<in> set (absorbed_weights b). 0 \<le> x)"

section \<open>Auxiliary facts\<close>

subsection \<open>Sums and the element searches\<close>

lemma foldl_add_sum_list: "foldl (\<lambda>acc val. acc + val) a xs = a + sum_list (xs :: real list)"
  by (induction xs arbitrary: a) simp_all

lemma meanList_loop_sum_list: "meanList_loop xs a = a + sum_list xs"
  by (induction xs arbitrary: a) simp_all

lemma first_min_snoc:
  assumes "first_min f pre ri"
  shows "first_min f (pre @ [x]) (if f x < f (pre ! ri) then length pre else ri)"
  using assms unfolding first_min_def
  by (auto simp: nth_append less_Suc_eq)

lemma min_element_loop_first_min:
  assumes "first_min f pre ri" and "r = pre ! ri" and "i = length pre"
  shows "first_min f (pre @ xs) (min_element_loop (\<lambda>a b. f a < f b) xs ri r i)"
  using assms
proof (induction xs arbitrary: pre ri r i)
  case Nil
  then show ?case by simp
next
  case (Cons x xs)
  let ?ri = "if f x < f (pre ! ri) then length pre else ri"
  have fm: "first_min f (pre @ [x]) ?ri"
    using Cons.prems(1) by (rule first_min_snoc)
  have lt: "ri < length pre" using Cons.prems(1) by (simp add: first_min_def)
  have "first_min f ((pre @ [x]) @ xs)
          (min_element_loop (\<lambda>a b. f a < f b) xs ?ri ((pre @ [x]) ! ?ri) (length (pre @ [x])))"
    by (rule Cons.IH [OF fm]) simp_all
  moreover have "(pre @ [x]) ! ?ri = (if f x < f (pre ! ri) then x else r)"
    using lt Cons.prems(2) by (simp add: nth_append)
  ultimately show ?case
    using Cons.prems(2,3) by (cases "f x < f (pre ! ri)") simp_all
qed

lemma min_element_first_min:
  assumes "xs \<noteq> []"
  shows "first_min f xs (min_element (\<lambda>a b. f a < f b) xs)"
proof -
  obtain x rest where xs: "xs = x # rest" using assms(1) by (cases xs) auto
  have "first_min f [x] 0" by (simp add: first_min_def)
  then have "first_min f ([x] @ rest) (min_element_loop (\<lambda>a b. f a < f b) rest 0 x 1)"
    by (rule min_element_loop_first_min) simp_all
  then show ?thesis by (simp add: xs min_element_def)
qed

lemma first_max_snoc:
  assumes "first_max f pre ri"
  shows "first_max f (pre @ [x]) (if f (pre ! ri) < f x then length pre else ri)"
  using assms unfolding first_max_def
  by (auto simp: nth_append less_Suc_eq)

lemma max_element_loop_first_max:
  assumes "first_max f pre ri" and "r = pre ! ri" and "i = length pre"
  shows "first_max f (pre @ xs) (max_element_loop (\<lambda>a b. f a < f b) xs ri r i)"
  using assms
proof (induction xs arbitrary: pre ri r i)
  case Nil
  then show ?case by simp
next
  case (Cons x xs)
  let ?ri = "if f (pre ! ri) < f x then length pre else ri"
  have fm: "first_max f (pre @ [x]) ?ri"
    using Cons.prems(1) by (rule first_max_snoc)
  have lt: "ri < length pre" using Cons.prems(1) by (simp add: first_max_def)
  have "first_max f ((pre @ [x]) @ xs)
          (max_element_loop (\<lambda>a b. f a < f b) xs ?ri ((pre @ [x]) ! ?ri) (length (pre @ [x])))"
    by (rule Cons.IH [OF fm]) simp_all
  moreover have "(pre @ [x]) ! ?ri = (if f (pre ! ri) < f x then x else r)"
    using lt Cons.prems(2) by (simp add: nth_append)
  ultimately show ?case
    using Cons.prems(2,3) by (cases "f (pre ! ri) < f x") simp_all
qed

lemma max_element_first_max:
  assumes "xs \<noteq> []"
  shows "first_max f xs (max_element (\<lambda>a b. f a < f b) xs)"
proof -
  obtain x rest where xs: "xs = x # rest" using assms(1) by (cases xs) auto
  have "first_max f [x] 0" by (simp add: first_max_def)
  then have "first_max f ([x] @ rest) (max_element_loop (\<lambda>a b. f a < f b) rest 0 x 1)"
    by (rule max_element_loop_first_max) simp_all
  then show ?thesis by (simp add: xs max_element_def)
qed

lemma nth_min_element_Min:
  assumes "xs \<noteq> []"
  shows "xs ! min_element (<) xs = Min (set (xs :: real list))"
proof -
  have fm: "first_min (\<lambda>x. x) xs (min_element (<) xs)"
    using min_element_first_min [OF assms, of "\<lambda>x. x"] by simp
  show ?thesis
  proof (rule Min_eqI [symmetric])
    show "finite (set xs)" by simp
    show "xs ! min_element (<) xs \<in> set xs"
      using fm by (simp add: first_min_def)
    show "\<And>y. y \<in> set xs \<Longrightarrow> xs ! min_element (<) xs \<le> y"
      using fm by (auto simp: first_min_def in_set_conv_nth)
  qed
qed

lemma nth_max_element_Max:
  assumes "xs \<noteq> []"
  shows "xs ! max_element (<) xs = Max (set (xs :: real list))"
proof -
  have fm: "first_max (\<lambda>x. x) xs (max_element (<) xs)"
    using max_element_first_max [OF assms, of "\<lambda>x. x"] by simp
  show ?thesis
  proof (rule Max_eqI [symmetric])
    show "finite (set xs)" by simp
    show "xs ! max_element (<) xs \<in> set xs"
      using fm by (simp add: first_max_def)
    show "\<And>y. y \<in> set xs \<Longrightarrow> y \<le> xs ! max_element (<) xs"
      using fm by (auto simp: first_max_def in_set_conv_nth)
  qed
qed

subsection \<open>The two scoring functions\<close>

lemma green_score_spec:
  assumes "absorbed_weights b \<noteq> []"
  shows "GreenBox_calculateScore b =
     (sum_list (drop (length (absorbed_weights b) - min (length (absorbed_weights b)) 3)
                  (absorbed_weights b))
       / real (min (length (absorbed_weights b)) 3))\<^sup>2"
proof (cases "length (absorbed_weights b) < 3")
  case True
  then show ?thesis
    using assms
    by (simp add: GreenBox_calculateScore_def meanList_def meanList_loop_sum_list min_def)
next
  case False
  then have "take 3 (rev (absorbed_weights b)) = rev (drop (length (absorbed_weights b) - 3) (absorbed_weights b))"
    by (simp add: take_rev)
  then show ?thesis
    using False assms
    by (simp add: GreenBox_calculateScore_def mean_def foldl_add_sum_list min_def Let_def)
qed

lemma blue_score_spec:
  assumes "absorbed_weights b \<noteq> []"
  shows "BlueBox_calculateScore b =
     0.5 * (Min (set (absorbed_weights b)) + Max (set (absorbed_weights b)))
         * (Min (set (absorbed_weights b)) + Max (set (absorbed_weights b)) + 1)
       + Max (set (absorbed_weights b))"
  using assms
  by (simp add: BlueBox_calculateScore_def Let_def cantorFunction_def
      nth_min_element_Min nth_max_element_Max)

lemma GreenBox_score_nonneg: "0 \<le> GreenBox_calculateScore b"
  by (simp add: GreenBox_calculateScore_def Let_def)

lemma BlueBox_score_nonneg:
  assumes "\<forall>x \<in> set (absorbed_weights b). 0 \<le> x"
  shows "0 \<le> BlueBox_calculateScore b"
proof (cases "absorbed_weights b = []")
  case True
  then show ?thesis by (simp add: BlueBox_calculateScore_def)
next
  case False
  then have "Min (set (absorbed_weights b)) \<in> set (absorbed_weights b)"
    and "Max (set (absorbed_weights b)) \<in> set (absorbed_weights b)"
    by simp_all
  then have "0 \<le> Min (set (absorbed_weights b))" and "0 \<le> Max (set (absorbed_weights b))"
    using assms by blast+
  then show ?thesis
    by (simp add: blue_score_spec [OF False])
qed

lemma calculateScore_nonneg:
  assumes "\<forall>x \<in> set (absorbed_weights b). 0 \<le> x"
  shows "0 \<le> calculateScore b"
  using GreenBox_score_nonneg [of b] BlueBox_score_nonneg [OF assms]
  by (cases "kind b") (simp_all add: calculateScore_def)

subsection \<open>absorb\<close>

lemma absorb_kind: "kind (snd (absorb w b)) = kind b"
  by (cases "kind b") (simp_all add: absorb_def GreenBox_absorb_def BlueBox_absorb_def Let_def)

lemma absorb_weight: "weight (snd (absorb w b)) = weight b + w"
  by (cases "kind b") (simp_all add: absorb_def GreenBox_absorb_def BlueBox_absorb_def Let_def)

lemma absorb_history: "absorbed_weights (snd (absorb w b)) = absorbed_weights b @ [w]"
  by (cases "kind b") (simp_all add: absorb_def GreenBox_absorb_def BlueBox_absorb_def Let_def)

lemma absorb_score: "fst (absorb w b) = calculateScore (snd (absorb w b))"
  by (cases "kind b")
    (simp_all add: absorb_def GreenBox_absorb_def BlueBox_absorb_def Let_def calculateScore_def)

lemma absorb_all_snoc: "absorb_all (ws @ [w]) b = snd (absorb w (absorb_all ws b))"
  by (simp add: absorb_all_def)

lemma absorb_all_fields:
  "weight (absorb_all ws b) = weight b + sum_list ws
   \<and> absorbed_weights (absorb_all ws b) = absorbed_weights b @ ws
   \<and> kind (absorb_all ws b) = kind b"
proof (induction ws rule: rev_induct)
  case Nil
  show ?case by (simp add: absorb_all_def)
next
  case (snoc w ws)
  then show ?case
    by (simp add: absorb_all_snoc absorb_weight absorb_history absorb_kind)
qed

lemma absorb_score_nonneg:
  assumes "\<forall>x \<in> set (absorbed_weights b). 0 \<le> x" and "0 \<le> w"
  shows "0 \<le> fst (absorb w b)"
  unfolding absorb_score
  by (rule calculateScore_nonneg) (use assms in \<open>auto simp: absorb_history\<close>)

lemma nonneg_histories_update:
  assumes "nonneg_histories bs" and "k < length bs" and "0 \<le> w"
  shows "nonneg_histories (bs[k := snd (absorb w (bs ! k))])"
proof -
  have "\<forall>x \<in> set (absorbed_weights (snd (absorb w (bs ! k)))). 0 \<le> x"
    using assms by (auto simp: absorb_history nonneg_histories_def)
  then show ?thesis
    using assms(1) unfolding nonneg_histories_def
    by (metis insertE set_update_subset_insert subsetD)
qed

subsection \<open>takeTurn and the loop of play\<close>

lemma box_less_eq: "box_less = (\<lambda>a b. weight a < weight b)"
  by (rule ext)+ (simp add: box_less_def)

lemma takeTurn_Some:
  assumes "bs \<noteq> []"
  shows "first_min weight bs (min_element box_less bs)
    \<and> takeTurn w bs p =
        Some (p\<lparr>score := score p + fst (absorb (real (unat w)) (bs ! min_element box_less bs))\<rparr>,
              bs[min_element box_less bs := snd (absorb (real (unat w)) (bs ! min_element box_less bs))])"
proof -
  have fm: "first_min weight bs (min_element box_less bs)"
    using min_element_first_min [OF assms, of weight] by (simp add: box_less_eq)
  then have "min_element box_less bs < length bs" by (simp add: first_min_def)
  then show ?thesis
    using fm by (simp add: takeTurn_def Let_def split: prod.splits)
qed

lemma takeTurn_None: "takeTurn w [] p = None"
  by (simp add: takeTurn_def min_element_def)

lemma player_A_takeTurn_Some:
  assumes "boxes g \<noteq> []"
  shows "player_A_takeTurn w g =
     Some (g\<lparr>boxes := (boxes g)[min_element box_less (boxes g) :=
                 snd (absorb (real (unat w)) (boxes g ! min_element box_less (boxes g)))],
             player_A := (player_A g)\<lparr>score := score (player_A g)
                 + fst (absorb (real (unat w)) (boxes g ! min_element box_less (boxes g)))\<rparr>\<rparr>)"
  using takeTurn_Some [OF assms, of w "player_A g"] by (simp add: player_A_takeTurn_def)

lemma player_B_takeTurn_Some:
  assumes "boxes g \<noteq> []"
  shows "player_B_takeTurn w g =
     Some (g\<lparr>boxes := (boxes g)[min_element box_less (boxes g) :=
                 snd (absorb (real (unat w)) (boxes g ! min_element box_less (boxes g)))],
             player_B := (player_B g)\<lparr>score := score (player_B g)
                 + fst (absorb (real (unat w)) (boxes g ! min_element box_less (boxes g)))\<rparr>\<rparr>)"
  using takeTurn_Some [OF assms, of w "player_B g"] by (simp add: player_B_takeTurn_def)

lemma play_turn_kinds:
  assumes "play_turn i w g = Some g'"
  shows "map kind (boxes g') = map kind (boxes g)"
proof (cases "boxes g = []")
  case True
  then show ?thesis
    using assms
    by (simp add: play_turn_def player_A_takeTurn_def player_B_takeTurn_def takeTurn_None
        split: if_splits)
next
  case False
  have "map kind ((boxes g)[k := snd (absorb x (boxes g ! k))]) = map kind (boxes g)" for k x
    by (simp add: map_update absorb_kind) (metis list_update_id map_update)
  then show ?thesis
    using assms player_A_takeTurn_Some [OF False] player_B_takeTurn_Some [OF False]
    by (auto simp: play_turn_def split: if_splits)
qed

lemma play_loop_kinds:
  "play_loop ws i g = Some g' \<Longrightarrow> map kind (boxes g') = map kind (boxes g)"
proof (induction ws arbitrary: i g)
  case Nil
  then show ?case by simp
next
  case (Cons w ws)
  then show ?case
    by (auto split: option.splits dest: play_turn_kinds)
qed

lemma play_loop_snoc:
  "play_loop (ws @ [w]) i g =
     (case play_loop ws i g of None \<Rightarrow> None | Some g' \<Rightarrow> play_turn (i + length ws) w g')"
  by (induction ws arbitrary: i g) (auto split: option.splits)

lemma run_turns_play_loop:
  "play_loop ws i g =
     run_turns (zip (map (\<lambda>j. if even j then Player_A else Player_B) [i..<i + length ws]) ws) g"
proof (induction ws arbitrary: i g)
  case Nil
  show ?case by simp
next
  case (Cons w ws)
  have "i < i + length (w # ws)" by simp
  then have "[i..<i + length (w # ws)] = i # [Suc i..<i + length (w # ws)]"
    by (rule upt_conv_Cons)
  then have upt: "[i..<i + length (w # ws)] = i # [Suc i..<Suc i + length ws]"
    by simp
  show ?case
    unfolding upt
    by (simp add: Cons.IH play_turn_def even_iff_mod_2_eq_zero split: option.splits)
qed

lemma turn_order_Suc:
  "turn_order (Suc L) = turn_order L @ [if even L then Player_A else Player_B]"
  by (simp add: turn_order_def)

lemma count_A: "length (filter (\<lambda>p. p = Player_A) (turn_order L)) = (L + 1) div 2"
proof (induction L)
  case 0
  show ?case by (simp add: turn_order_def)
next
  case (Suc L)
  then show ?case by (auto simp: turn_order_Suc elim!: evenE oddE)
qed

lemma count_B: "length (filter (\<lambda>p. p = Player_B) (turn_order L)) = L div 2"
proof (induction L)
  case 0
  show ?case by (simp add: turn_order_def)
next
  case (Suc L)
  then show ?case by (auto simp: turn_order_Suc elim!: evenE oddE)
qed

lemma ceil_half: "nat \<lceil>real L / 2\<rceil> = (L + 1) div 2"
proof -
  have "\<lceil>real L / 2\<rceil> = \<lceil>of_int (int L) / (of_int 2 :: real)\<rceil>" by simp
  also have "\<dots> = - (- int L div 2)" by (rule ceiling_divide_eq_div)
  finally show ?thesis by linarith
qed

lemma floor_half: "nat \<lfloor>real L / 2\<rfloor> = L div 2"
proof -
  have "\<lfloor>real L / 2\<rfloor> = \<lfloor>of_int (int L) / (of_int 2 :: real)\<rfloor>" by simp
  also have "\<dots> = int L div 2" by (rule floor_divide_of_int_eq)
  finally show ?thesis by linarith
qed

lemma play_turn_step:
  assumes "boxes g \<noteq> []" and "nonneg_histories (boxes g)"
  shows "\<exists>g'. play_turn i w g = Some g'
           \<and> length (boxes g') = length (boxes g) \<and> nonneg_histories (boxes g')
           \<and> score (player_A g) \<le> score (player_A g')
           \<and> score (player_B g) \<le> score (player_B g')"
proof -
  let ?k = "min_element box_less (boxes g)"
  let ?x = "real (unat w)"
  have k: "?k < length (boxes g)"
    using takeTurn_Some [OF assms(1)] by (simp add: first_min_def)
  have x: "0 \<le> ?x" by (rule of_nat_0_le_iff)
  have "\<forall>v \<in> set (absorbed_weights (boxes g ! ?k)). 0 \<le> v"
    using assms(2) nth_mem [OF k] unfolding nonneg_histories_def by blast
  then have s: "0 \<le> fst (absorb ?x (boxes g ! ?k))"
    using x by (rule absorb_score_nonneg)
  have n: "nonneg_histories ((boxes g)[?k := snd (absorb ?x (boxes g ! ?k))])"
    using assms(2) k x by (rule nonneg_histories_update)
  show ?thesis
    using s n
    by (simp add: play_turn_def player_A_takeTurn_Some [OF assms(1)]
        player_B_takeTurn_Some [OF assms(1)])
qed

lemma play_loop_total:
  assumes "boxes g \<noteq> []" and "nonneg_histories (boxes g)"
  shows "\<exists>g'. play_loop ws i g = Some g'
           \<and> length (boxes g') = length (boxes g) \<and> nonneg_histories (boxes g')
           \<and> score (player_A g) \<le> score (player_A g')
           \<and> score (player_B g) \<le> score (player_B g')"
  using assms
proof (induction ws arbitrary: i g)
  case Nil
  then show ?case by simp
next
  case (Cons w ws)
  obtain g1 where g1: "play_turn i w g = Some g1" "length (boxes g1) = length (boxes g)"
      "nonneg_histories (boxes g1)" "score (player_A g) \<le> score (player_A g1)"
      "score (player_B g) \<le> score (player_B g1)"
    using play_turn_step [OF Cons.prems, of i w] by blast
  have ne: "boxes g1 \<noteq> []" using g1(2) Cons.prems(1) by auto
  obtain g2 where g2: "play_loop ws (Suc i) g1 = Some g2" "length (boxes g2) = length (boxes g1)"
      "nonneg_histories (boxes g2)" "score (player_A g1) \<le> score (player_A g2)"
      "score (player_B g1) \<le> score (player_B g2)"
    using Cons.IH [OF ne g1(3), of "Suc i"] by blast
  show ?case
    using g1 g2 by simp
qed

lemma new_game_ok: "boxes new_game \<noteq> [] \<and> nonneg_histories (boxes new_game)"
  by (simp add: new_game_def nonneg_histories_def makeGreenBox_def makeBlueBox_def)

section \<open>The scores of the boxes\<close>

text \<open>
  Claim C1. For a GreenBox with a non-empty history of length \<open>n\<close>, \<open>calculateScore()\<close> is
  the square of the arithmetic mean of the last \<open>min n 3\<close> absorbed weights: \<open>w\<^sup>2\<close> after
  one absorption, \<open>((w1 + w2) / 2)\<^sup>2\<close> after two, and the mean of the last three squared
  from then on, whatever was absorbed before them.
\<close>

theorem GreenBox_score_last_three:
  assumes "kind b = Green" and "absorbed_weights b \<noteq> []"
  shows "calculateScore b =
           (sum_list (drop (length (absorbed_weights b) - min (length (absorbed_weights b)) 3)
                        (absorbed_weights b))
             / real (min (length (absorbed_weights b)) 3))\<^sup>2
         \<and> (\<forall>w. absorbed_weights b = [w] \<longrightarrow> calculateScore b = w\<^sup>2)
         \<and> (\<forall>w1 w2. absorbed_weights b = [w1, w2] \<longrightarrow> calculateScore b = ((w1 + w2) / 2)\<^sup>2)
         \<and> (\<forall>older w1 w2 w3. absorbed_weights b = older @ [w1, w2, w3] \<longrightarrow>
               calculateScore b = ((w1 + w2 + w3) / 3)\<^sup>2)"
proof -
  have eq: "calculateScore b = GreenBox_calculateScore b"
    using assms(1) by (simp add: calculateScore_def)
  show ?thesis
    unfolding eq using green_score_spec [OF assms(2)] by (auto simp: add.assoc)
qed

theorem GreenBox_score_last_three_witness:
  "kind \<lparr>kind = Green, weight = 37, absorbed_weights = [7, 3, 12, 15]\<rparr> = Green
   \<and> absorbed_weights \<lparr>kind = Green, weight = 37, absorbed_weights = [7, 3, 12, 15]\<rparr> \<noteq> []
   \<and> calculateScore \<lparr>kind = Green, weight = 37, absorbed_weights = [7, 3, 12, 15]\<rparr> = 100"
  using GreenBox_score_last_three [of "\<lparr>kind = Green, weight = 37, absorbed_weights = [7, 3, 12, 15]\<rparr>"]
  by simp

text \<open>
  Claim C2. For a BlueBox with a non-empty history, \<open>calculateScore()\<close> is the pairing
  function \<open>0.5 * (a + b) * (a + b + 1) + b\<close> at \<open>a\<close> the minimum and \<open>b\<close> the maximum of
  the whole history. It depends on the set of absorbed weights only, so not on the order
  of absorption, and the pairing of 0 and 1 is 2.
\<close>

theorem BlueBox_score_cantor:
  assumes "kind b = Blue" and "absorbed_weights b \<noteq> []"
  shows "calculateScore b =
           0.5 * (Min (set (absorbed_weights b)) + Max (set (absorbed_weights b)))
               * (Min (set (absorbed_weights b)) + Max (set (absorbed_weights b)) + 1)
             + Max (set (absorbed_weights b))
         \<and> calculateScore b =
             cantorFunction (Min (set (absorbed_weights b))) (Max (set (absorbed_weights b)))
         \<and> (\<forall>b'. kind b' = Blue \<and> set (absorbed_weights b') = set (absorbed_weights b) \<longrightarrow>
               calculateScore b' = calculateScore b)
         \<and> cantorFunction 0 1 = 2"
proof -
  have eq: "calculateScore b = BlueBox_calculateScore b"
    using assms(1) by (simp add: calculateScore_def)
  have other: "calculateScore b' = calculateScore b"
    if "kind b' = Blue" and "set (absorbed_weights b') = set (absorbed_weights b)" for b'
  proof -
    have "absorbed_weights b' \<noteq> []" using that(2) assms(2) by auto
    then show ?thesis
      using that blue_score_spec [of b'] blue_score_spec [OF assms(2)] eq
      by (simp add: calculateScore_def)
  qed
  show ?thesis
    unfolding eq using blue_score_spec [OF assms(2)] other eq
    by (simp add: cantorFunction_def)
qed

theorem BlueBox_score_cantor_witness:
  "kind \<lparr>kind = Blue, weight = 31.2, absorbed_weights = [7, 1, 23]\<rparr> = Blue
   \<and> absorbed_weights \<lparr>kind = Blue, weight = 31.2, absorbed_weights = [7, 1, 23]\<rparr> \<noteq> []
   \<and> calculateScore \<lparr>kind = Blue, weight = 31.2, absorbed_weights = [7, 1, 23]\<rparr> = 323"
  using BlueBox_score_cantor [of "\<lparr>kind = Blue, weight = 31.2, absorbed_weights = [7, 1, 23]\<rparr>"]
  by simp

text \<open>
  Claim C4. After any sequence \<open>ws\<close> of \<open>absorb\<close> calls the weight of a box is its
  weight before plus the sum of \<open>ws\<close> (accumulated from the left, one token at a time),
  and its history is the history before followed by \<open>ws\<close>. So a box made by
  \<open>makeGreenBox\<close> or \<open>makeBlueBox\<close> weighs its initial weight plus the sum of its
  history. One \<open>absorb\<close> appends the token to the history, and does not decrease the
  weight when the token is not negative.
\<close>

theorem weight_is_initial_plus_history:
  "weight (absorb_all ws b) = weight b + sum_list ws
   \<and> weight (absorb_all ws b) = foldl (\<lambda>acc x. acc + x) (weight b) ws
   \<and> absorbed_weights (absorb_all ws b) = absorbed_weights b @ ws
   \<and> weight (absorb_all ws (makeGreenBox w0))
       = w0 + sum_list (absorbed_weights (absorb_all ws (makeGreenBox w0)))
   \<and> weight (absorb_all ws (makeBlueBox w0))
       = w0 + sum_list (absorbed_weights (absorb_all ws (makeBlueBox w0)))
   \<and> absorbed_weights (snd (absorb w b)) = absorbed_weights b @ [w]
   \<and> weight (snd (absorb w b)) = weight b + w
   \<and> (0 \<le> w \<longrightarrow> weight b \<le> weight (snd (absorb w b)))"
  by (simp add: absorb_all_fields absorb_weight absorb_history makeGreenBox_def makeBlueBox_def
      foldl_add_sum_list)

theorem weight_is_initial_plus_history_witness:
  "(0::real) \<le> 2 \<and> weight (makeGreenBox 0.1) \<le> weight (snd (absorb 2 (makeGreenBox 0.1)))
   \<and> weight (absorb_all [1, 2] (makeGreenBox 0.1)) = 3.1"
  using weight_is_initial_plus_history [of "[1, 2]" "makeGreenBox 0.1" "0.1" 2]
  by (simp add: makeGreenBox_def)

section \<open>Turns\<close>

text \<open>
  Claim C3. The boxes are set up in the order Green(0.0), Green(0.1), Blue(0.2),
  Blue(0.3), and the kinds keep that order in every game state \<open>g\<close> the loop reaches.
  \<open>takeTurn\<close> on a non-empty vector picks the position \<open>k\<close> of the first box of least
  weight; that box absorbs the token and the score it returns is added to the player's
  score. In the loop the player is Player A at an even counter and Player B at an odd
  one.
\<close>

theorem takeTurn_selects_first_lightest:
  assumes "play_loop ws 0 new_game = Some g"
  shows "boxes new_game = [makeGreenBox 0.0, makeGreenBox 0.1, makeBlueBox 0.2, makeBlueBox 0.3]
    \<and> map kind (boxes g) = [Green, Green, Blue, Blue]
    \<and> (\<forall>bs p. bs \<noteq> [] \<longrightarrow>
          (\<exists>k. first_min weight bs k
             \<and> takeTurn w bs p =
                 Some (p\<lparr>score := score p + fst (absorb (real (unat w)) (bs ! k))\<rparr>,
                       bs[k := snd (absorb (real (unat w)) (bs ! k))])))
    \<and> (\<exists>k. first_min weight (boxes g) k
          \<and> play_turn i w g =
              Some (if even i
                    then g\<lparr>boxes := (boxes g)[k := snd (absorb (real (unat w)) (boxes g ! k))],
                           player_A := (player_A g)\<lparr>score := score (player_A g)
                              + fst (absorb (real (unat w)) (boxes g ! k))\<rparr>\<rparr>
                    else g\<lparr>boxes := (boxes g)[k := snd (absorb (real (unat w)) (boxes g ! k))],
                           player_B := (player_B g)\<lparr>score := score (player_B g)
                              + fst (absorb (real (unat w)) (boxes g ! k))\<rparr>\<rparr>))"
proof -
  have init: "boxes new_game = [makeGreenBox 0.0, makeGreenBox 0.1, makeBlueBox 0.2, makeBlueBox 0.3]"
    by (simp add: new_game_def)
  have kinds: "map kind (boxes g) = [Green, Green, Blue, Blue]"
    using play_loop_kinds [OF assms] by (simp add: init makeGreenBox_def makeBlueBox_def)
  then have ne: "boxes g \<noteq> []" by auto
  have tt: "\<exists>k. first_min weight bs k
             \<and> takeTurn w bs p =
                 Some (p\<lparr>score := score p + fst (absorb (real (unat w)) (bs ! k))\<rparr>,
                       bs[k := snd (absorb (real (unat w)) (bs ! k))])"
    if "bs \<noteq> []" for bs p
    using takeTurn_Some [OF that, of w p] by blast
  have fm: "first_min weight (boxes g) (min_element box_less (boxes g))"
    using takeTurn_Some [OF ne] by blast
  have pt: "play_turn i w g =
              Some (if even i
                    then g\<lparr>boxes := (boxes g)[min_element box_less (boxes g) := snd (absorb (real (unat w)) (boxes g ! min_element box_less (boxes g)))],
                           player_A := (player_A g)\<lparr>score := score (player_A g)
                              + fst (absorb (real (unat w)) (boxes g ! min_element box_less (boxes g)))\<rparr>\<rparr>
                    else g\<lparr>boxes := (boxes g)[min_element box_less (boxes g) := snd (absorb (real (unat w)) (boxes g ! min_element box_less (boxes g)))],
                           player_B := (player_B g)\<lparr>score := score (player_B g)
                              + fst (absorb (real (unat w)) (boxes g ! min_element box_less (boxes g)))\<rparr>\<rparr>)"
    by (simp add: play_turn_def player_A_takeTurn_Some [OF ne] player_B_takeTurn_Some [OF ne]
        even_iff_mod_2_eq_zero)
  show ?thesis
    using init kinds tt fm pt by blast
qed

theorem takeTurn_selects_first_lightest_witness:
  "play_loop [] 0 new_game = Some new_game
   \<and> map kind (boxes new_game) = [Green, Green, Blue, Blue]
   \<and> (\<exists>k. first_min weight (boxes new_game) k
          \<and> play_turn 0 5 new_game =
              Some (new_game\<lparr>boxes := (boxes new_game)
                        [k := snd (absorb (real (unat (5 :: 32 word))) (boxes new_game ! k))],
                     player_A := (player_A new_game)\<lparr>score := score (player_A new_game)
                        + fst (absorb (real (unat (5 :: 32 word))) (boxes new_game ! k))\<rparr>\<rparr>))"
proof -
  have h: "play_loop [] 0 new_game = Some new_game" by simp
  have e: "even (0 :: nat)" by simp
  note c = takeTurn_selects_first_lightest [OF h, of 5 0]
  note c2 = c [THEN conjunct2, THEN conjunct1]
  note c4 = c [THEN conjunct2, THEN conjunct2, THEN conjunct2, unfolded if_P [OF e]]
  show ?thesis
    by (intro conjI h c2 c4)
qed

text \<open>
  Claim C10. A call of \<open>takeTurn\<close> that returns changes one box: the first box of
  least weight, whose history grows by the token and whose weight grows by its value.
  The vector keeps its length and every other box is as it was. A turn of the loop
  runs \<open>takeTurn\<close> for the acting player on the boxes of the game, and leaves the other
  player unchanged.
\<close>

theorem takeTurn_frame:
  "(\<forall>p p' bs'. takeTurn w bs p = Some (p', bs') \<longrightarrow>
      (\<exists>k. first_min weight bs k \<and> length bs' = length bs
         \<and> (\<forall>j < length bs. j \<noteq> k \<longrightarrow> bs' ! j = bs ! j)
         \<and> absorbed_weights (bs' ! k) = absorbed_weights (bs ! k) @ [real (unat w)]
         \<and> weight (bs' ! k) = weight (bs ! k) + real (unat w)
         \<and> kind (bs' ! k) = kind (bs ! k)))
   \<and> (\<forall>g'. play_turn i w g = Some g' \<longrightarrow>
        (if even i then player_B g' = player_B g else player_A g' = player_A g)
        \<and> (\<exists>p'. takeTurn w (boxes g) (if even i then player_A g else player_B g)
                   = Some (p', boxes g')))"
proof -
  have a: "\<exists>k. first_min weight bs k \<and> length bs' = length bs
         \<and> (\<forall>j < length bs. j \<noteq> k \<longrightarrow> bs' ! j = bs ! j)
         \<and> absorbed_weights (bs' ! k) = absorbed_weights (bs ! k) @ [real (unat w)]
         \<and> weight (bs' ! k) = weight (bs ! k) + real (unat w)
         \<and> kind (bs' ! k) = kind (bs ! k)"
    if t: "takeTurn w bs p = Some (p', bs')" for p p' bs'
  proof -
    have ne: "bs \<noteq> []" using t by (auto simp: takeTurn_None)
    let ?k = "min_element box_less bs"
    have fm: "first_min weight bs ?k" using takeTurn_Some [OF ne] by blast
    then have k: "?k < length bs" by (simp add: first_min_def)
    have bs': "bs' = bs[?k := snd (absorb (real (unat w)) (bs ! ?k))]"
      using takeTurn_Some [OF ne, of w p] t by simp
    show ?thesis
      using fm k by (intro exI [of _ ?k]) (simp add: bs' absorb_history absorb_weight absorb_kind)
  qed
  have b: "(if even i then player_B g' = player_B g else player_A g' = player_A g)
        \<and> (\<exists>p'. takeTurn w (boxes g) (if even i then player_A g else player_B g)
                   = Some (p', boxes g'))"
    if t: "play_turn i w g = Some g'" for g'
    using t
    by (auto simp: play_turn_def player_A_takeTurn_def player_B_takeTurn_def
        even_iff_mod_2_eq_zero split: if_splits option.splits)
  show ?thesis
    using a b by blast
qed

theorem takeTurn_frame_witness:
  "takeTurn 5 (boxes new_game) new_player =
     Some (\<lparr>score = 25\<rparr>,
           [\<lparr>kind = Green, weight = 5, absorbed_weights = [5]\<rparr>,
            makeGreenBox 0.1, makeBlueBox 0.2, makeBlueBox 0.3])
   \<and> (\<exists>k. first_min weight (boxes new_game) k
         \<and> (\<forall>j < length (boxes new_game). j \<noteq> k \<longrightarrow>
               [\<lparr>kind = Green, weight = 5, absorbed_weights = [5]\<rparr>,
                makeGreenBox 0.1, makeBlueBox 0.2, makeBlueBox 0.3] ! j = boxes new_game ! j))
   \<and> play_turn 1 5 new_game =
       Some (new_game\<lparr>boxes := [\<lparr>kind = Green, weight = 5, absorbed_weights = [5]\<rparr>,
                                makeGreenBox 0.1, makeBlueBox 0.2, makeBlueBox 0.3],
                      player_B := \<lparr>score = 25\<rparr>\<rparr>)
   \<and> player_A (new_game\<lparr>boxes := [\<lparr>kind = Green, weight = 5, absorbed_weights = [5]\<rparr>,
                                makeGreenBox 0.1, makeBlueBox 0.2, makeBlueBox 0.3],
                      player_B := \<lparr>score = 25\<rparr>\<rparr>) = player_A new_game"
proof -
  let ?bs = "[\<lparr>kind = Green, weight = 5, absorbed_weights = [5]\<rparr>,
              makeGreenBox 0.1, makeBlueBox 0.2, makeBlueBox 0.3]"
  let ?g = "new_game\<lparr>boxes := ?bs, player_B := \<lparr>score = 25\<rparr>\<rparr>"
  have h1: "takeTurn 5 (boxes new_game) new_player = Some (\<lparr>score = 25\<rparr>, ?bs)"
    by (simp add: new_game_def new_player_def makeGreenBox_def makeBlueBox_def takeTurn_def
        min_element_def box_less_def absorb_def GreenBox_absorb_def
        GreenBox_calculateScore_def meanList_def Let_def)
  have h2: "play_turn 1 5 new_game = Some ?g"
    using h1 by (simp add: play_turn_def player_B_takeTurn_def new_game_def)
  note c = takeTurn_frame [of 5 "boxes new_game" 1 new_game]
  note c1 = c [THEN conjunct1, THEN spec, THEN spec, THEN spec, THEN mp, OF h1]
  note c2 = c [THEN conjunct2, THEN spec, THEN mp, OF h2]
  have e1: "\<exists>k. first_min weight (boxes new_game) k
         \<and> (\<forall>j < length (boxes new_game). j \<noteq> k \<longrightarrow> ?bs ! j = boxes new_game ! j)"
    using c1 by blast
  have e2: "player_A ?g = player_A new_game"
    using c2 by simp
  show ?thesis
    by (intro conjI h1 e1 h2 e2)
qed

text \<open>
  Claim C5. On every input \<open>ws\<close>, \<open>play\<close> returns the scores of the game in which the
  tokens are played, from the initial game, in the turn order of the specification:
  the token at index \<open>i\<close> is played by Player A when \<open>i\<close> is even and by Player B when
  \<open>i\<close> is odd, so Player A starts. The loop of \<open>play\<close>, entered at counter 0, does the
  same from any game. Of \<open>L\<close> turns, Player A takes \<open>\<lceil>L / 2\<rceil>\<close> and Player B
  \<open>\<lfloor>L / 2\<rfloor>\<close>.
\<close>

theorem turns_alternate:
  "play ws =
     (case run_turns (zip (turn_order (length ws)) ws) new_game of
        None \<Rightarrow> None
      | Some g' \<Rightarrow> Some (getScore (player_A g'), getScore (player_B g')))
   \<and> play_loop ws 0 g = run_turns (zip (turn_order (length ws)) ws) g
   \<and> (\<forall>i < length ws. turn_order (length ws) ! i = (if even i then Player_A else Player_B))
   \<and> length (filter (\<lambda>p. p = Player_A) (turn_order (length ws))) = nat \<lceil>real (length ws) / 2\<rceil>
   \<and> length (filter (\<lambda>p. p = Player_B) (turn_order (length ws))) = nat \<lfloor>real (length ws) / 2\<rfloor>
   \<and> length (filter (\<lambda>p. p = Player_A) (turn_order (length ws)))
       + length (filter (\<lambda>p. p = Player_B) (turn_order (length ws))) = length ws"
proof -
  have loop: "play_loop ws 0 h = run_turns (zip (turn_order (length ws)) ws) h" for h
    using run_turns_play_loop [of ws 0 h] by (simp add: turn_order_def)
  have entry: "play ws =
     (case run_turns (zip (turn_order (length ws)) ws) new_game of
        None \<Rightarrow> None
      | Some g' \<Rightarrow> Some (getScore (player_A g'), getScore (player_B g')))"
    unfolding play_def loop [of new_game] by (rule refl)
  have order: "\<forall>i < length ws. turn_order (length ws) ! i = (if even i then Player_A else Player_B)"
    by (simp add: turn_order_def)
  have a: "length (filter (\<lambda>p. p = Player_A) (turn_order (length ws))) = nat \<lceil>real (length ws) / 2\<rceil>"
    by (simp only: count_A ceil_half)
  have b: "length (filter (\<lambda>p. p = Player_B) (turn_order (length ws))) = nat \<lfloor>real (length ws) / 2\<rfloor>"
    by (simp only: count_B floor_half)
  have "(length ws + 1) div 2 + length ws div 2 = length ws" by presburger
  then have ab: "length (filter (\<lambda>p. p = Player_A) (turn_order (length ws)))
       + length (filter (\<lambda>p. p = Player_B) (turn_order (length ws))) = length ws"
    by (simp only: count_A count_B)
  show ?thesis
    by (intro conjI entry loop order a b ab)
qed

theorem turns_alternate_witness:
  "play [1, 1, 2] =
     (case run_turns [(Player_A, 1), (Player_B, 1), (Player_A, 2)] new_game of
        None \<Rightarrow> None
      | Some g' \<Rightarrow> Some (getScore (player_A g'), getScore (player_B g')))
   \<and> play_loop [1, 1, 2] 0 new_game
       = run_turns [(Player_A, 1), (Player_B, 1), (Player_A, 2)] new_game
   \<and> (1 :: nat) < length [1, 1, 2 :: 32 word]
   \<and> turn_order (length [1, 1, 2 :: 32 word]) ! 1 = Player_B
   \<and> length (filter (\<lambda>p. p = Player_A) (turn_order (length [1, 1, 2 :: 32 word]))) = 2
   \<and> length (filter (\<lambda>p. p = Player_B) (turn_order (length [1, 1, 2 :: 32 word]))) = 1"
proof -
  have z: "zip (turn_order (length [1, 1, 2 :: 32 word])) [1, 1, 2 :: 32 word]
             = [(Player_A, 1), (Player_B, 1), (Player_A, 2)]"
    by (simp add: turn_order_def upt_rec)
  note c = turns_alternate [of "[1, 1, 2]" new_game]
  note c1 = c [THEN conjunct1, unfolded z]
  note c2 = c [THEN conjunct2, THEN conjunct1, unfolded z]
  note c3 = c [THEN conjunct2, THEN conjunct2]
  have rest: "(1 :: nat) < length [1, 1, 2 :: 32 word]
   \<and> turn_order (length [1, 1, 2 :: 32 word]) ! 1 = Player_B
   \<and> length (filter (\<lambda>p. p = Player_A) (turn_order (length [1, 1, 2 :: 32 word]))) = 2
   \<and> length (filter (\<lambda>p. p = Player_B) (turn_order (length [1, 1, 2 :: 32 word]))) = 1"
    using c3 by simp
  show ?thesis
    by (intro conjI c1 c2 rest [THEN conjunct1] rest [THEN conjunct2, THEN conjunct1]
        rest [THEN conjunct2, THEN conjunct2, THEN conjunct1]
        rest [THEN conjunct2, THEN conjunct2, THEN conjunct2])
qed

section \<open>Games\<close>

text \<open>
  Claim C8. On the empty input \<open>play\<close> returns \<open>(0.0, 0.0)\<close>, and the loop leaves the
  game as it was set up: the four boxes keep their initial weights and their empty
  histories.
\<close>

theorem play_empty:
  "play [] = Some (0, 0) \<and> play_loop [] 0 new_game = Some new_game
   \<and> map absorbed_weights (boxes new_game) = [[], [], [], []]
   \<and> map weight (boxes new_game) = [0, 0.1, 0.2, 0.3]"
  by (simp add: play_def new_game_def new_player_def getScore_def makeGreenBox_def makeBlueBox_def)

text \<open>Claim C6. \<open>play\<close> on the tokens 1, 1, 2, 3 returns \<open>(13.0, 25.0)\<close>.\<close>

theorem play_fibonacci4: "play [1, 1, 2, 3] = Some (13, 25)"
  by (simp add: play_def new_game_def new_player_def getScore_def makeGreenBox_def makeBlueBox_def
      play_turn_def player_A_takeTurn_def player_B_takeTurn_def takeTurn_def min_element_def
      max_element_def box_less_def absorb_def GreenBox_absorb_def BlueBox_absorb_def
      GreenBox_calculateScore_def BlueBox_calculateScore_def cantorFunction_def mean_def
      meanList_def Let_def)

text \<open>
  Claim C7. \<open>play\<close> on the tokens 1, 1, 2, 3, 5, 8, 13, 21 returns \<open>(155.0, 366.25)\<close>.
\<close>

theorem play_fibonacci8: "play [1, 1, 2, 3, 5, 8, 13, 21] = Some (155, 366.25)"
  by (simp add: play_def new_game_def new_player_def getScore_def makeGreenBox_def makeBlueBox_def
      play_turn_def player_A_takeTurn_def player_B_takeTurn_def takeTurn_def min_element_def
      max_element_def box_less_def absorb_def GreenBox_absorb_def BlueBox_absorb_def
      GreenBox_calculateScore_def BlueBox_calculateScore_def cantorFunction_def mean_def
      meanList_def Let_def power2_eq_square)

text \<open>
  Claim C9. Both players start with the score 0. The score of a box whose absorbed
  weights are all non-negative is non-negative, under either scoring function, and so
  is what \<open>absorb\<close> returns for an unsigned token. For every input \<open>ws\<close> and every
  further token \<open>w\<close>, \<open>play\<close> returns on both inputs, and neither player's score after
  \<open>ws @ [w]\<close> is below the score after \<open>ws\<close>, which is not below 0.
\<close>

theorem scores_nondecreasing:
  "score (player_A new_game) = 0 \<and> score (player_B new_game) = 0
   \<and> ((\<forall>x \<in> set (absorbed_weights b). 0 \<le> x) \<longrightarrow> 0 \<le> calculateScore b)
   \<and> ((\<forall>x \<in> set (absorbed_weights b). 0 \<le> x) \<longrightarrow> 0 \<le> fst (absorb (real (unat v)) b))
   \<and> (\<exists>a1 b1 a2 b2. play ws = Some (a1, b1) \<and> play (ws @ [w]) = Some (a2, b2)
          \<and> 0 \<le> a1 \<and> a1 \<le> a2 \<and> 0 \<le> b1 \<and> b1 \<le> b2)"
proof -
  obtain g1 where g1: "play_loop ws 0 new_game = Some g1" "length (boxes g1) = length (boxes new_game)"
      "nonneg_histories (boxes g1)" "score (player_A new_game) \<le> score (player_A g1)"
      "score (player_B new_game) \<le> score (player_B g1)"
    using play_loop_total [of new_game ws 0] new_game_ok by blast
  have ne: "boxes g1 \<noteq> []" using g1(2) new_game_ok by auto
  obtain g2 where g2: "play_turn (length ws) w g1 = Some g2"
      "score (player_A g1) \<le> score (player_A g2)" "score (player_B g1) \<le> score (player_B g2)"
    using play_turn_step [OF ne g1(3), of "length ws" w] by blast
  have z: "score (player_A new_game) = 0" "score (player_B new_game) = 0"
    by (simp_all add: new_game_def new_player_def)
  have p1: "play ws = Some (score (player_A g1), score (player_B g1))"
    by (simp add: play_def g1(1) getScore_def)
  have p2: "play (ws @ [w]) = Some (score (player_A g2), score (player_B g2))"
    by (simp add: play_def play_loop_snoc g1(1) g2(1) getScore_def)
  have games: "\<exists>a1 b1 a2 b2. play ws = Some (a1, b1) \<and> play (ws @ [w]) = Some (a2, b2)
          \<and> 0 \<le> a1 \<and> a1 \<le> a2 \<and> 0 \<le> b1 \<and> b1 \<le> b2"
    using p1 p2 g1(4,5) g2(2,3) z by auto
  have x: "0 \<le> real (unat v)" by (rule of_nat_0_le_iff)
  have sc: "(\<forall>x \<in> set (absorbed_weights b). 0 \<le> x) \<longrightarrow> 0 \<le> calculateScore b"
    using calculateScore_nonneg [of b] by blast
  have ab: "(\<forall>x \<in> set (absorbed_weights b). 0 \<le> x) \<longrightarrow> 0 \<le> fst (absorb (real (unat v)) b)"
    using absorb_score_nonneg [OF _ x, of b] by blast
  show ?thesis
    by (intro conjI z sc ab games)
qed

theorem scores_nondecreasing_witness:
  "absorbed_weights \<lparr>kind = Blue, weight = 8.2, absorbed_weights = [1, 7]\<rparr> = [1, 7]
   \<and> 0 \<le> calculateScore \<lparr>kind = Blue, weight = 8.2, absorbed_weights = [1, 7]\<rparr>
   \<and> 0 \<le> fst (absorb (real (unat (23 :: 32 word)))
               \<lparr>kind = Blue, weight = 8.2, absorbed_weights = [1, 7]\<rparr>)
   \<and> (\<exists>a1 b1 a2 b2. play [1, 1] = Some (a1, b1) \<and> play ([1, 1] @ [3]) = Some (a2, b2)
          \<and> 0 \<le> a1 \<and> a1 \<le> a2 \<and> 0 \<le> b1 \<and> b1 \<le> b2)"
proof -
  let ?b = "\<lparr>kind = Blue, weight = 8.2, absorbed_weights = [1, 7]\<rparr>"
  have h0: "absorbed_weights ?b = [1, 7]" by simp
  have h: "\<forall>x \<in> set (absorbed_weights ?b). 0 \<le> x" by simp
  note c = scores_nondecreasing [of ?b 23 "[1, 1]" 3]
  note c3 = c [THEN conjunct2, THEN conjunct2, THEN conjunct1, THEN mp, OF h]
  note c4 = c [THEN conjunct2, THEN conjunct2, THEN conjunct2, THEN conjunct1, THEN mp, OF h]
  note c5 = c [THEN conjunct2, THEN conjunct2, THEN conjunct2, THEN conjunct2]
  show ?thesis
    by (intro conjI h0 c3 c4 c5)
qed

end
